theory Spec2Isabelle
  imports Main "HOL-Library.Word" "HOL-Library.AList" "HOL-Library.Sublist"
begin

section \<open>The host: paths and a file store\<close>

text \<open>
  rix::fs forwards every call to \<open>std::filesystem\<close> and \<open>std::fstream\<close>. The wrappers
  below are translated from the headers line by line; the host functions they call
  (named \<open>std_...\<close>) follow ISO C++20 [fs.op.funcs] as the GNU C++ library implements it
  on a POSIX host without symbolic links: a pathname is a string of bytes, the separator is
  \<open>/\<close>, streams opened in text mode pass bytes through unchanged, and storage never runs
  out.
\<close>

type_synonym path = string

type_synonym bytes = "char list"

text \<open>The values of \<open>std::errc\<close> the host reports.\<close>

datatype errc =
    no_such_file_or_directory
  | not_a_directory
  | permission_denied
  | file_exists
  | is_a_directory
  | directory_not_empty
  | invalid_argument
  | not_supported
  | device_or_resource_busy
  | no_such_device_or_address

text \<open>\<open>std::error_code\<close>: \<open>None\<close> is the cleared code, which converts to \<open>false\<close>.\<close>

type_synonym error_code = "errc option"

text \<open>
  The exceptions that leave the library. It throws \<open>std::system_error(ec, msg)\<close> and
  \<open>std::runtime_error(msg)\<close>; the string kept here is the message given to the constructor
  (\<open>what()\<close> of a \<open>system_error\<close> adds the text of the code). \<open>std::ios_base::failure\<close> is
  thrown by the host's stream buffer when a read fails, and passes through \<open>read_text\<close>.
\<close>

datatype error = SystemError errc string | RuntimeError string | IosFailure errc string

fun error_code_of :: "error \<Rightarrow> error_code" where
  "error_code_of (SystemError e m) = Some e"
| "error_code_of (RuntimeError m) = None"
| "error_code_of (IosFailure e m) = Some e"

fun error_message :: "error \<Rightarrow> string" where
  "error_message (SystemError e m) = m"
| "error_message (RuntimeError m) = m"
| "error_message (IosFailure e m) = m"

text \<open>\<open>std::uintmax_t\<close> on the host.\<close>

type_synonym uintmax = "64 word"

text \<open>
  What the calling process may do with a file or a directory: nothing, read (and search) it,
  or read and modify it.
\<close>

datatype access = NoAccess | ReadOnly | ReadWrite

text \<open>
  A file is a regular file with its bytes, a directory, or something else (a socket).
  The store maps the absolute location of every file, a list of names from the root,
  to its node; the root directory is always there. \<open>cwd\<close> is the working directory
  of the process.
\<close>

datatype node = RegularFile access bytes | Directory access | Other

record filesystem =
  entries :: "(string list \<times> node) list"
  cwd :: "string list"

definition node_at :: "filesystem \<Rightarrow> string list \<Rightarrow> node option" where
  "node_at fs loc = (if loc = [] then Some (Directory ReadWrite) else map_of (entries fs) loc)"

text \<open>The names between the separators of a pathname; runs of separators count once.\<close>

fun names_from :: "string \<Rightarrow> string \<Rightarrow> string list" where
  "names_from cur [] = (if cur = [] then [] else [cur])"
| "names_from cur (c # cs) =
     (if c = CHR ''/'' then (if cur = [] then [] else [cur]) @ names_from [] cs
      else names_from (cur @ [c]) cs)"

definition filenames :: "path \<Rightarrow> string list" where
  "filenames p = names_from [] p"

definition is_absolute :: "path \<Rightarrow> bool" where
  "is_absolute p = (case p of [] \<Rightarrow> False | c # _ \<Rightarrow> c = CHR ''/'')"

text \<open>
  POSIX pathname resolution. A pathname that ends in a separator after a name is resolved
  as if a dot followed. Every directory walked through must exist and be searchable; the
  file the last name refers to need not exist.
\<close>

definition lookup_names :: "path \<Rightarrow> string list" where
  "lookup_names p =
     filenames p @ (if filenames p \<noteq> [] \<and> last p = CHR ''/'' then [''.''] else [])"

fun walk :: "filesystem \<Rightarrow> string list \<Rightarrow> string list \<Rightarrow> errc + string list" where
  "walk fs cur [] = Inr cur"
| "walk fs cur (c # cs) =
     (case node_at fs cur of
        None \<Rightarrow> Inl no_such_file_or_directory
      | Some (Directory a) \<Rightarrow>
          if a = NoAccess then Inl permission_denied
          else walk fs (if c = ''.'' then cur
                        else if c = ''..'' then butlast cur
                        else cur @ [c]) cs
      | Some _ \<Rightarrow> Inl not_a_directory)"

definition resolve :: "filesystem \<Rightarrow> path \<Rightarrow> errc + string list" where
  "resolve fs p =
     (if p = [] then Inl no_such_file_or_directory
      else walk fs (if is_absolute p then [] else cwd fs) (lookup_names p))"

text \<open>POSIX \<open>stat\<close>: the node a pathname refers to, or the reason there is none.\<close>

definition lookup :: "filesystem \<Rightarrow> path \<Rightarrow> errc + node" where
  "lookup fs p =
     (case resolve fs p of
        Inl e \<Rightarrow> Inl e
      | Inr loc \<Rightarrow>
          (case node_at fs loc of
             None \<Rightarrow> Inl no_such_file_or_directory
           | Some n \<Rightarrow> Inr n))"

subsection \<open>Status queries of the host\<close>

datatype file_type = ft_none | ft_not_found | ft_regular | ft_directory | ft_socket

definition node_type :: "node \<Rightarrow> file_type" where
  "node_type n =
     (case n of RegularFile _ _ \<Rightarrow> ft_regular | Directory _ \<Rightarrow> ft_directory | Other \<Rightarrow> ft_socket)"

text \<open>
  [fs.op.status] \<open>status(p, ec)\<close>: on an error \<open>ec\<close> is set to it, and the type is
  \<open>not_found\<close> when the error says that the file does not exist, \<open>none\<close> otherwise.
\<close>

definition std_status :: "filesystem \<Rightarrow> path \<Rightarrow> file_type \<times> error_code" where
  "std_status fs p =
     (case lookup fs p of
        Inl e \<Rightarrow>
          (if e = no_such_file_or_directory \<or> e = not_a_directory then ft_not_found
           else ft_none, Some e)
      | Inr n \<Rightarrow> (node_type n, None))"

text \<open>
  [fs.op.exists] \<open>exists(p, ec)\<close> clears \<open>ec\<close> when the status is known.
  [fs.op.is.regular.file], [fs.op.is.directory]: \<open>ec\<close> is set as by \<open>status(p, ec)\<close>,
  so it stays set for a file that is not found.
\<close>

definition std_exists :: "filesystem \<Rightarrow> path \<Rightarrow> bool \<times> error_code" where
  "std_exists fs p =
     (let (s, ec) = std_status fs p
      in if s \<noteq> ft_none then (s \<noteq> ft_not_found, None) else (False, ec))"

definition std_is_regular_file :: "filesystem \<Rightarrow> path \<Rightarrow> bool \<times> error_code" where
  "std_is_regular_file fs p = (let (s, ec) = std_status fs p in (s = ft_regular, ec))"

definition std_is_directory :: "filesystem \<Rightarrow> path \<Rightarrow> bool \<times> error_code" where
  "std_is_directory fs p = (let (s, ec) = std_status fs p in (s = ft_directory, ec))"

text \<open>
  [fs.op.file.size] \<open>file_size(p, ec)\<close>: the size of a regular file; for anything else an
  error, and the value \<open>static_cast<uintmax_t>(-1)\<close>.
\<close>

definition std_file_size :: "filesystem \<Rightarrow> path \<Rightarrow> uintmax \<times> error_code" where
  "std_file_size fs p =
     (case lookup fs p of
        Inl e \<Rightarrow> (- 1, Some e)
      | Inr (RegularFile _ content) \<Rightarrow> (of_nat (length content), None)
      | Inr (Directory _) \<Rightarrow> (- 1, Some is_a_directory)
      | Inr Other \<Rightarrow> (- 1, Some not_supported))"

section \<open>file.hpp: checks that do not throw\<close>

text \<open>
  \<open>path_exists\<close>, \<open>is_file_path\<close>, \<open>is_dir_path\<close> are \<open>noexcept\<close>: each declares a local
  \<open>error_code\<close>, passes it to the host and returns the host's boolean; the code is dropped.
\<close>

definition path_exists :: "filesystem \<Rightarrow> path \<Rightarrow> bool" where
  "path_exists fs p = (let (r, ec) = std_exists fs p in r)"

definition is_file_path :: "filesystem \<Rightarrow> path \<Rightarrow> bool" where
  "is_file_path fs p = (let (r, ec) = std_is_regular_file fs p in r)"

definition is_dir_path :: "filesystem \<Rightarrow> path \<Rightarrow> bool" where
  "is_dir_path fs p = (let (r, ec) = std_is_directory fs p in r)"

section \<open>file.hpp: file\_size\_bytes\<close>

text \<open>
  The control flow of \<open>file_size_bytes\<close> over the outcomes of its two host queries:
  a set code after \<open>is_regular_file\<close> throws \<open>system_error\<close> first, then a path that is
  not a regular file throws \<open>runtime_error\<close>, then a set code after \<open>file_size\<close> throws
  \<open>system_error\<close>.
\<close>

definition file_size_bytes_from ::
  "path \<Rightarrow> bool \<times> error_code \<Rightarrow> uintmax \<times> error_code \<Rightarrow> error + uintmax" where
  "file_size_bytes_from p is_reg size_query =
     (let (ok_file, ec) = is_reg in
      case ec of
        Some e \<Rightarrow> Inl (SystemError e (''rix::fs::file_size_bytes: stat failed: '' @ p))
      | None \<Rightarrow>
          if \<not> ok_file
          then Inl (RuntimeError (''rix::fs::file_size_bytes: not a regular file: '' @ p))
          else (let (sz, ec2) = size_query in
                case ec2 of
                  Some e \<Rightarrow>
                    Inl (SystemError e (''rix::fs::file_size_bytes: file_size failed: '' @ p))
                | None \<Rightarrow> Inr sz))"

definition file_size_bytes :: "filesystem \<Rightarrow> path \<Rightarrow> error + uintmax" where
  "file_size_bytes fs p =
     file_size_bytes_from p (std_is_regular_file fs p) (std_file_size fs p)"

section \<open>file.hpp: whole-file text input and output\<close>

definition store :: "filesystem \<Rightarrow> string list \<Rightarrow> node \<Rightarrow> filesystem" where
  "store fs loc n = fs\<lparr>entries := AList.update loc n (entries fs)\<rparr>"

text \<open>
  \<open>std::ofstream out(p, mode)\<close> with \<open>out | trunc\<close> or \<open>out | app\<close>: POSIX \<open>open\<close> with
  \<open>O_WRONLY | O_CREAT\<close> and \<open>O_TRUNC\<close> or \<open>O_APPEND\<close>. An existing regular file must be
  writable and is emptied by \<open>trunc\<close>; a missing one is created empty in a writable
  directory. The result is the location of the open file, or \<open>errno\<close>.
\<close>

datatype openmode = out_trunc | out_app

definition std_ofstream_open ::
  "filesystem \<Rightarrow> path \<Rightarrow> openmode \<Rightarrow> errc + (string list \<times> filesystem)" where
  "std_ofstream_open fs p mode =
     (case resolve fs p of
        Inl e \<Rightarrow> Inl e
      | Inr loc \<Rightarrow>
          (case node_at fs loc of
             Some (RegularFile a content) \<Rightarrow>
               if a = ReadWrite
               then Inr (loc, case mode of
                                out_trunc \<Rightarrow> store fs loc (RegularFile a [])
                              | out_app \<Rightarrow> fs)
               else Inl permission_denied
           | Some (Directory _) \<Rightarrow> Inl is_a_directory
           | Some Other \<Rightarrow> Inl no_such_device_or_address
           | None \<Rightarrow>
               (case node_at fs (butlast loc) of
                  Some (Directory a) \<Rightarrow>
                    if a = ReadWrite then Inr (loc, store fs loc (RegularFile ReadWrite []))
                    else Inl permission_denied
                | _ \<Rightarrow> Inl no_such_file_or_directory)))"

text \<open>
  \<open>out.write(data, size)\<close> on an open stream: the bytes go to the end of the file, and the
  stream stays good. The boolean is the stream's state as \<open>if (!out)\<close> tests it.
\<close>

definition std_ostream_write ::
  "filesystem \<Rightarrow> string list \<Rightarrow> bytes \<Rightarrow> bool \<times> filesystem" where
  "std_ostream_write fs loc text =
     (case node_at fs loc of
        Some (RegularFile a content) \<Rightarrow> (True, store fs loc (RegularFile a (content @ text)))
      | _ \<Rightarrow> (False, fs))"







definition append_text :: "filesystem \<Rightarrow> path \<Rightarrow> bytes \<Rightarrow> error + filesystem" where
  "append_text fs p text =
     (case std_ofstream_open fs p out_app of
        Inl e \<Rightarrow> Inl (SystemError e (''rix::fs::append_text: open failed: '' @ p))
      | Inr (out, fs1) \<Rightarrow>
          (let (good, fs2) = std_ostream_write fs1 out text
           in if \<not> good
              then Inl (RuntimeError (''rix::fs::append_text: write failed: '' @ p))
              else Inr fs2))"

section \<open>file.hpp: copy\_file\<close>

text \<open>
  [fs.op.copy.file] \<open>copy_file(from, to, options, ec)\<close>. It is an error when \<open>from\<close> is not
  a regular file, when \<open>to\<close> exists and is not a regular file or is the same file as
  \<open>from\<close>, and when \<open>to\<close> exists and the options name none of \<open>skip_existing\<close>,
  \<open>overwrite_existing\<close>, \<open>update_existing\<close>. Only \<open>skip_existing\<close> (and \<open>update_existing\<close>,
  left out here) returns \<open>false\<close> with a clear code.
\<close>

datatype copy_options = copy_none | copy_skip_existing | copy_overwrite_existing

definition std_copy_file ::
  "filesystem \<Rightarrow> path \<Rightarrow> path \<Rightarrow> copy_options \<Rightarrow> bool \<times> error_code \<times> filesystem" where
  "std_copy_file fs from to opt =
     (case lookup fs from of
        Inl e \<Rightarrow> (False, Some e, fs)
      | Inr (RegularFile fa content) \<Rightarrow>
          (case resolve fs to of
             Inl e \<Rightarrow> (False, Some e, fs)
           | Inr tloc \<Rightarrow>
               (case node_at fs tloc of
                  Some (RegularFile ta _) \<Rightarrow>
                    if resolve fs from = Inr tloc then (False, Some file_exists, fs)
                    else (case opt of
                            copy_none \<Rightarrow> (False, Some file_exists, fs)
                          | copy_skip_existing \<Rightarrow> (False, None, fs)
                          | copy_overwrite_existing \<Rightarrow>
                              if fa = NoAccess \<or> ta \<noteq> ReadWrite
                              then (False, Some permission_denied, fs)
                              else (True, None, store fs tloc (RegularFile fa content)))
                | Some _ \<Rightarrow> (False, Some not_supported, fs)
                | None \<Rightarrow>
                    if fa = NoAccess then (False, Some permission_denied, fs)
                    else (case node_at fs (butlast tloc) of
                            Some (Directory a) \<Rightarrow>
                              if a = ReadWrite
                              then (True, None, store fs tloc (RegularFile fa content))
                              else (False, Some permission_denied, fs)
                          | _ \<Rightarrow> (False, Some no_such_file_or_directory, fs))))
      | Inr _ \<Rightarrow> (False, Some not_supported, fs))"

definition copy_file :: "filesystem \<Rightarrow> path \<Rightarrow> path \<Rightarrow> bool \<Rightarrow> error + filesystem" where
  "copy_file fs from to overwrite =
     (let opt = (if overwrite then copy_overwrite_existing else copy_none);
          (ok, ec, fs') = std_copy_file fs from to opt
      in case ec of
           Some e \<Rightarrow>
             Inl (SystemError e (''rix::fs::copy_file: failed: '' @ from @ '' -> '' @ to))
         | None \<Rightarrow>
             if \<not> ok
             then Inl (RuntimeError
                         (''rix::fs::copy_file: not copied: '' @ from @ '' -> '' @ to))
             else Inr fs')"

section \<open>file.hpp and dir.hpp: removal\<close>

definition final_name :: "path \<Rightarrow> string" where
  "final_name p = (case rev (filenames p) of [] \<Rightarrow> [] | n # _ \<Rightarrow> n)"

definition has_children :: "filesystem \<Rightarrow> string list \<Rightarrow> bool" where
  "has_children fs loc = list_ex (\<lambda>(k, n). strict_prefix loc k) (entries fs)"

definition writable_dir :: "filesystem \<Rightarrow> string list \<Rightarrow> bool" where
  "writable_dir fs loc = (node_at fs loc = Some (Directory ReadWrite))"

text \<open>
  POSIX \<open>remove\<close> on a file that exists at \<open>loc\<close>: \<open>unlink\<close> for a file, \<open>rmdir\<close> for a
  directory, which must be empty. The directory holding the file must be writable; the
  root and a pathname ending in dot or dot-dot cannot be removed.
\<close>

definition posix_remove :: "filesystem \<Rightarrow> path \<Rightarrow> string list \<Rightarrow> errc + filesystem" where
  "posix_remove fs p loc =
     (if loc = [] then Inl device_or_resource_busy
      else if final_name p = ''.'' then Inl invalid_argument
      else if final_name p = ''..'' then Inl directory_not_empty
      else if \<not> writable_dir fs (butlast loc) then Inl permission_denied
      else if has_children fs loc then Inl directory_not_empty
      else Inr (fs\<lparr>entries := AList.delete loc (entries fs)\<rparr>))"

text \<open>
  [fs.op.remove] \<open>remove(p, ec)\<close> calls POSIX \<open>remove\<close>. The result is \<open>false\<close> with a clear
  code when that reports no such file or directory, and \<open>false\<close> with the code set on every
  other error, a path through something that is not a directory included.
\<close>

definition std_remove :: "filesystem \<Rightarrow> path \<Rightarrow> bool \<times> error_code \<times> filesystem" where
  "std_remove fs p =
     (case lookup fs p of
        Inl e \<Rightarrow>
          if e = no_such_file_or_directory then (False, None, fs) else (False, Some e, fs)
      | Inr n \<Rightarrow>
          (case resolve fs p of
             Inl e \<Rightarrow> (False, Some e, fs)
           | Inr loc \<Rightarrow>
               (case posix_remove fs p loc of
                  Inl e \<Rightarrow> (False, Some e, fs)
                | Inr fs' \<Rightarrow> (True, None, fs'))))"

definition remove_file :: "filesystem \<Rightarrow> path \<Rightarrow> error + (bool \<times> filesystem)" where
  "remove_file fs p =
     (let (removed, ec, fs') = std_remove fs p
      in case ec of
           Some e \<Rightarrow> Inl (SystemError e (''rix::fs::remove_file: failed: '' @ p))
         | None \<Rightarrow> Inr (removed, fs'))"

definition remove_dir :: "filesystem \<Rightarrow> path \<Rightarrow> error + (bool \<times> filesystem)" where
  "remove_dir fs p =
     (let (removed, ec, fs') = std_remove fs p
      in case ec of
           Some e \<Rightarrow> Inl (SystemError e (''rix::fs::remove_dir: failed: '' @ p))
         | None \<Rightarrow> Inr (removed, fs'))"






section \<open>ops.hpp: recursive\_remove and ensure\_dir\<close>


text \<open>
  [fs.op.create.directories] \<open>create_directories(p, ec)\<close> walks the names of \<open>p\<close> and
  creates every directory that is missing, each in a writable directory. It returns
  whether the directory \<open>p\<close> resolves to was created by the call, and \<open>false\<close> with the
  code set on an error.
\<close>

fun mkdirs ::
  "filesystem \<Rightarrow> string list \<Rightarrow> string list \<Rightarrow> errc + (string list \<times> filesystem)" where
  "mkdirs fs cur [] =
     (case node_at fs cur of
        None \<Rightarrow> Inl no_such_file_or_directory
      | Some (Directory _) \<Rightarrow> Inr (cur, fs)
      | Some _ \<Rightarrow> Inl not_a_directory)"
| "mkdirs fs cur (c # cs) =
     (case node_at fs cur of
        None \<Rightarrow> Inl no_such_file_or_directory
      | Some (Directory a) \<Rightarrow>
          if a = NoAccess then Inl permission_denied
          else if c = ''.'' then mkdirs fs cur cs
          else if c = ''..'' then mkdirs fs (butlast cur) cs
          else (case node_at fs (cur @ [c]) of
                  Some _ \<Rightarrow> mkdirs fs (cur @ [c]) cs
                | None \<Rightarrow>
                    if a = ReadWrite
                    then mkdirs (store fs (cur @ [c]) (Directory ReadWrite)) (cur @ [c]) cs
                    else Inl permission_denied)
      | Some _ \<Rightarrow> Inl not_a_directory)"

definition std_create_directories ::
  "filesystem \<Rightarrow> path \<Rightarrow> bool \<times> error_code \<times> filesystem" where
  "std_create_directories fs p =
     (if p = [] then (False, Some no_such_file_or_directory, fs)
      else (case mkdirs fs (if is_absolute p then [] else cwd fs) (lookup_names p) of
              Inl e \<Rightarrow> (False, Some e, fs)
            | Inr (loc, fs') \<Rightarrow> (node_at fs loc = None, None, fs')))"

definition ensure_dir :: "filesystem \<Rightarrow> path \<Rightarrow> error + filesystem" where
  "ensure_dir fs p =
     (let (ex, ec) = std_exists fs p in
      if ex
      then (case ec of
              Some e \<Rightarrow> Inl (SystemError e (''rix::fs::ensure_dir: exists failed: '' @ p))
            | None \<Rightarrow>
                (let (is_dir, ec1) = std_is_directory fs p
                 in if \<not> is_dir
                    then Inl (RuntimeError (''rix::fs::ensure_dir: not a directory: '' @ p))
                    else Inr fs))
      else (let (created, ec2, fs') = std_create_directories fs p
            in case ec2 of
                 Some e \<Rightarrow>
                   if \<not> created
                   then Inl (SystemError e (''rix::fs::ensure_dir: create failed: '' @ p))
                   else Inr fs'
               | None \<Rightarrow> Inr fs'))"

section \<open>path.hpp: lexical helpers\<close>

fun join_names :: "string list \<Rightarrow> string" where
  "join_names [] = []"
| "join_names [n] = n"
| "join_names (n # m # ns) = n @ ''/'' @ join_names (m # ns)"

text \<open>
  [fs.path.gen] \<open>lexically_normal\<close>: dot names go, a name followed by dot-dot goes with it,
  dot-dot directly under the root goes, runs of separators become one separator, a
  separator stays at the end where a removed name or an empty name ended the path, but not
  after dot-dot, and a path that becomes empty is a dot. A path without any name, which is
  empty or only a root directory however many separators it is written with, is returned
  as it is. \<open>kept\<close> is the stack of names kept so far, the last one first.
\<close>

fun normal_names :: "bool \<Rightarrow> string list \<Rightarrow> string list \<Rightarrow> string list" where
  "normal_names root kept [] = kept"
| "normal_names root kept (c # cs) =
     (if c = ''.'' then normal_names root kept cs
      else if c = ''..''
        then (case kept of
                [] \<Rightarrow> if root then normal_names root [] cs else normal_names root [''..''] cs
              | t # ts \<Rightarrow>
                  if t = ''..'' then normal_names root (''..'' # kept) cs
                  else normal_names root ts cs)
      else normal_names root (c # kept) cs)"

definition lexically_normal :: "path \<Rightarrow> path" where
  "lexically_normal p =
     (if filenames p = [] then p
      else
        (let root = is_absolute p;
             kept = normal_names root [] (filenames p);
             ended = (last p = CHR ''/'' \<or> final_name p = ''.'' \<or> final_name p = ''..'');
             sep_at_end = (case kept of [] \<Rightarrow> False | t # _ \<Rightarrow> t \<noteq> ''..'' \<and> ended);
             s = (if root then ''/'' else []) @ join_names (rev kept) @
                 (if sep_at_end then ''/'' else [])
         in if s = [] then ''.'' else s))"

definition normalize_path :: "path \<Rightarrow> path" where
  "normalize_path p = lexically_normal p"

text \<open>
  What collapsing means, on the names of a path: one step drops a dot, drops a name
  together with the dot-dot that follows it, or drops a dot-dot that stands directly under
  the root. The names of a normal form are the names of its string, and the single dot
  stands for no name at all.
\<close>

inductive collapse_step :: "bool \<Rightarrow> string list \<Rightarrow> string list \<Rightarrow> bool" for root where
  drop_dot: "collapse_step root (xs @ ''.'' # ys) (xs @ ys)"
| drop_pair: "n \<noteq> ''.'' \<Longrightarrow> n \<noteq> ''..'' \<Longrightarrow> collapse_step root (xs @ n # ''..'' # ys) (xs @ ys)"
| drop_root_up: "root \<Longrightarrow> collapse_step root (''..'' # ys) ys"

definition names_of_normal :: "path \<Rightarrow> string list" where
  "names_of_normal q = (if q = ''.'' then [] else filenames q)"

text \<open>
  \<open>path::generic_string()\<close>. The generic format allows runs of separators, and the
  implementations differ: one returns the pathname as it is, one writes a single
  separator between the elements. \<open>squeezing\<close> tells which one the host is.
\<close>

fun squeeze :: "string \<Rightarrow> string" where
  "squeeze (a # b # cs) =
     (if a = CHR ''/'' \<and> b = CHR ''/'' then squeeze (b # cs) else a # squeeze (b # cs))"
| "squeeze cs = cs"

definition generic_string :: "bool \<Rightarrow> path \<Rightarrow> string" where
  "generic_string squeezing p = (if squeezing then squeeze p else p)"

definition ensure_trailing_separator :: "bool \<Rightarrow> path \<Rightarrow> path" where
  "ensure_trailing_separator squeezing p =
     (if p = [] then p
      else (let s = generic_string squeezing p;
                s = (if s \<noteq> [] \<and> last s \<noteq> CHR ''/'' then s @ [CHR ''/''] else s)
            in s))"

text \<open>
  Two shapes used to describe normal forms: a name that is not empty and holds no separator,
  and a stack of kept names whose dot-dot names all lie at the bottom, with none under the
  root.
\<close>

definition plain :: "string \<Rightarrow> bool" where
  "plain n = (n \<noteq> [] \<and> CHR ''/'' \<notin> set n)"

definition ups_below :: "bool \<Rightarrow> string list \<Rightarrow> bool" where
  "ups_below root kept =
     (\<exists>k ms. kept = ms @ replicate k ''..'' \<and> ''..'' \<notin> set ms \<and> (root \<longrightarrow> k = 0))"

section \<open>A small file store for the examples\<close>

definition example_fs :: filesystem where
  "example_fs =
     \<lparr>entries =
        [([''d''], Directory ReadWrite),
         ([''d'', ''a''], RegularFile ReadWrite ''hello rix''),
         ([''d'', ''b''], RegularFile ReadWrite ''old''),
         ([''e''], Directory ReadWrite),
         ([''locked''], Directory NoAccess),
         ([''ro''], Directory ReadOnly),
         ([''s''], Other)],
      cwd = []\<rparr>"

definition made_fs :: filesystem where
  "made_fs =
     store (store example_fs [''x''] (Directory ReadWrite)) [''x'', ''y''] (Directory ReadWrite)"


definition without_e_fs :: filesystem where
  "without_e_fs = example_fs\<lparr>entries := AList.delete [''e''] (entries example_fs)\<rparr>"

definition without_a_fs :: filesystem where
  "without_a_fs = example_fs\<lparr>entries := AList.delete [''d'', ''a''] (entries example_fs)\<rparr>"

section \<open>Properties\<close>

subsection \<open>Status of a path\<close>

lemma std_status_error:
  "lookup fs p = Inl e \<Longrightarrow>
   std_status fs p =
     (if e = no_such_file_or_directory \<or> e = not_a_directory then ft_not_found else ft_none,
      Some e)"
  by (simp add: std_status_def)

lemma std_status_node: "lookup fs p = Inr n \<Longrightarrow> std_status fs p = (node_type n, None)"
  by (simp add: std_status_def)

text \<open>
  C1. When the lookup of \<open>p\<close> fails, because \<open>p\<close> does not exist or for any other reason,
  \<open>path_exists\<close>, \<open>is_file_path\<close> and \<open>is_dir_path\<close> all return false. The three functions
  are total and return a plain boolean: no failure of the lookup is passed on as an error.
\<close>

theorem safe_checks_false_on_error:
  assumes "lookup fs p = Inl e"
  shows "\<not> path_exists fs p \<and> \<not> is_file_path fs p \<and> \<not> is_dir_path fs p"
  using assms
  by (simp add: path_exists_def is_file_path_def is_dir_path_def std_exists_def
      std_is_regular_file_def std_is_directory_def std_status_error)

theorem safe_checks_false_on_error_witness:
  "lookup example_fs ''locked/x'' = Inl permission_denied \<and>
   \<not> path_exists example_fs ''locked/x'' \<and>
   \<not> is_file_path example_fs ''locked/x'' \<and>
   \<not> is_dir_path example_fs ''locked/x''"
proof -
  have h: "lookup example_fs ''locked/x'' = Inl permission_denied"
    by code_simp
  show ?thesis
    using h safe_checks_false_on_error [OF h] by simp
qed

subsection \<open>Writing a file and reading it back\<close>

lemma node_at_store:
  "node_at (store fs loc n) k = (if k = loc \<and> loc \<noteq> [] then Some n else node_at fs k)"
  by (simp add: node_at_def store_def update_conv')

lemma cwd_store: "cwd (store fs loc n) = cwd fs"
  by (simp add: store_def)










subsection \<open>The size of a file\<close>

text \<open>
  C4, as the specification states it, does not hold: for a path that does not exist the host sets the
  error code in \<open>is_regular_file(p, ec)\<close>, and \<open>file_size_bytes\<close> tests the code before it
  tests the boolean, so it throws \<open>system_error\<close> and not \<open>runtime_error\<close>.
\<close>

theorem file_size_bytes_missing_counterexample:
  "lookup example_fs ''missing'' = Inl no_such_file_or_directory \<and>
   \<not> is_file_path example_fs ''missing'' \<and>
   file_size_bytes example_fs ''missing'' =
     Inl (SystemError no_such_file_or_directory
            ''rix::fs::file_size_bytes: stat failed: missing'')"
  by code_simp

text \<open>
  C4, amended. \<open>file_size_bytes(p)\<close> throws \<open>system_error\<close> with the host's code when the
  status of \<open>p\<close> cannot be obtained, which includes a \<open>p\<close> that does not exist; it throws
  \<open>runtime_error\<close> (not a regular file) when \<open>p\<close> exists and is not a regular file; for a
  regular file it returns the number of bytes as a 64-bit unsigned value; and a code set by
  the size query after a successful check is thrown as \<open>system_error\<close>.
\<close>

theorem file_size_bytes_cases:
  "(lookup fs p = Inl e \<longrightarrow>
      file_size_bytes fs p =
        Inl (SystemError e (''rix::fs::file_size_bytes: stat failed: '' @ p))) \<and>
   (lookup fs p = Inr n \<and> node_type n \<noteq> ft_regular \<longrightarrow>
      file_size_bytes fs p =
        Inl (RuntimeError (''rix::fs::file_size_bytes: not a regular file: '' @ p))) \<and>
   (lookup fs p = Inr (RegularFile a content) \<longrightarrow>
      file_size_bytes fs p = Inr (of_nat (length content))) \<and>
   file_size_bytes_from p (True, None) (sz, Some e') =
     Inl (SystemError e' (''rix::fs::file_size_bytes: file_size failed: '' @ p))"
  by (auto simp: file_size_bytes_def file_size_bytes_from_def std_is_regular_file_def
      std_file_size_def std_status_def node_type_def split: node.splits)

theorem file_size_bytes_cases_witness:
  "lookup example_fs ''locked/x'' = Inl permission_denied \<and>
   file_size_bytes example_fs ''locked/x'' =
     Inl (SystemError permission_denied ''rix::fs::file_size_bytes: stat failed: locked/x'') \<and>
   lookup example_fs ''d'' = Inr (Directory ReadWrite) \<and>
   node_type (Directory ReadWrite) \<noteq> ft_regular \<and>
   file_size_bytes example_fs ''d'' =
     Inl (RuntimeError ''rix::fs::file_size_bytes: not a regular file: d'') \<and>
   lookup example_fs ''d/a'' = Inr (RegularFile ReadWrite ''hello rix'') \<and>
   file_size_bytes example_fs ''d/a'' = Inr 9"
proof -
  have a: "lookup example_fs ''locked/x'' = Inl permission_denied"
    by code_simp
  have b: "lookup example_fs ''d'' = Inr (Directory ReadWrite)"
    by code_simp
  have b': "node_type (Directory ReadWrite) \<noteq> ft_regular"
    by code_simp
  have c: "lookup example_fs ''d/a'' = Inr (RegularFile ReadWrite ''hello rix'')"
    by code_simp
  show ?thesis
    using a b b' c
      file_size_bytes_cases [of example_fs "''locked/x''" permission_denied]
      file_size_bytes_cases [of example_fs "''d''" _ "Directory ReadWrite"]
      file_size_bytes_cases [of example_fs "''d/a''" _ _ ReadWrite "''hello rix''"]
    by simp
qed

text \<open>In a file store that does not change between the two queries, the size query
  cannot fail once the check has passed.\<close>

lemma file_size_after_check:
  "std_is_regular_file fs p = (True, None) \<Longrightarrow> snd (std_file_size fs p) = None"
  by (auto simp: std_is_regular_file_def std_file_size_def std_status_def node_type_def
      split: sum.splits node.splits if_splits)

subsection \<open>Copying onto an existing file\<close>

text \<open>
  C5. With \<open>overwrite = false\<close> and a destination that exists, the host reports the error
  \<open>file_exists\<close>, and \<open>copy_file\<close> tests the code first: it throws \<open>system_error\<close>, where its
  documentation and the specification name \<open>runtime_error\<close> (not copied).
\<close>

theorem copy_file_existing_destination:
  "lookup example_fs ''d/a'' = Inr (RegularFile ReadWrite ''hello rix'') \<and>
   lookup example_fs ''d/b'' = Inr (RegularFile ReadWrite ''old'') \<and>
   copy_file example_fs ''d/a'' ''d/b'' False =
     Inl (SystemError file_exists ''rix::fs::copy_file: failed: d/a -> d/b'')"
  by code_simp

text \<open>
  The host returns \<open>false\<close> with a clear code only under \<open>skip_existing\<close>, which \<open>copy_file\<close>
  never passes: no call of \<open>copy_file\<close> throws its \<open>runtime_error\<close>.
\<close>

lemma copy_file_no_runtime_error: "copy_file fs from to overwrite \<noteq> Inl (RuntimeError m)"
  by (auto simp: copy_file_def std_copy_file_def Let_def
      split: sum.splits node.splits option.splits if_splits copy_options.splits prod.splits)

subsection \<open>Lexical helpers\<close>

text \<open>Some paths and their normal forms.\<close>

lemma normalize_path_examples:
  "normalize_path ''a//b///c'' = ''a/b/c'' \<and>
   normalize_path ''./a/./.'' = ''a/'' \<and>
   normalize_path ''x/y/../../z'' = ''z'' \<and>
   normalize_path ''/../a'' = ''/a'' \<and>
   normalize_path ''../../a/'' = ''../../a/'' \<and>
   normalize_path ''a/..'' = ''.''"
  by code_simp

text \<open>The names of a pathname are not empty and hold no separator.\<close>

lemma names_from_plain:
  "CHR ''/'' \<notin> set cur \<Longrightarrow> n \<in> set (names_from cur s) \<Longrightarrow> plain n"
proof (induction s arbitrary: cur)
  case Nil
  then show ?case by (auto simp: plain_def split: if_splits)
next
  case (Cons c s)
  show ?case
  proof (cases "c = CHR ''/''")
    case True
    with Cons.prems have "n = cur \<and> cur \<noteq> [] \<or> n \<in> set (names_from [] s)"
      by (auto split: if_splits)
    then show ?thesis
      using Cons.IH [of "[]"] Cons.prems(1) by (auto simp: plain_def)
  next
    case False
    with Cons.prems have "n \<in> set (names_from (cur @ [c]) s)"
      by simp
    then show ?thesis
      using Cons.IH [of "cur @ [c]"] Cons.prems(1) False by simp
  qed
qed

lemma filenames_plain: "n \<in> set (filenames p) \<Longrightarrow> plain n"
  using names_from_plain [of "[]" n p] by (simp add: filenames_def)

lemma names_from_name:
  "CHR ''/'' \<notin> set n \<Longrightarrow> names_from cur (n @ s) = names_from (cur @ n) s"
  by (induction n arbitrary: cur) auto

lemma names_from_join:
  assumes "\<And>n. n \<in> set ns \<Longrightarrow> plain n" and "t = [] \<or> t = ''/''"
  shows "names_from [] (join_names ns @ t) = ns"
  using assms(1)
proof (induction ns rule: join_names.induct)
  case 1
  then show ?case using assms(2) by auto
next
  case (2 n)
  then have "plain n" by simp
  then show ?case using assms(2) by (auto simp: names_from_name plain_def)
next
  case (3 n m ns)
  then have "plain n" by simp
  moreover have "names_from [] (join_names (m # ns) @ t) = m # ns"
    using 3 by simp
  ultimately show ?case by (simp add: names_from_name plain_def)
qed

lemma join_names_Nil:
  "(\<And>n. n \<in> set ns \<Longrightarrow> plain n) \<Longrightarrow> join_names ns = [] \<longleftrightarrow> ns = []"
  by (induction ns rule: join_names.induct) (auto simp: plain_def)

lemma normal_names_step:
  "\<exists>kept'. normal_names root kept (c # cs) = normal_names root kept' cs \<and>
     set kept' \<subseteq> set kept \<union> {c, ''..''} \<and> (''.'' \<in> set kept' \<longrightarrow> ''.'' \<in> set kept)"
proof (cases "c = ''.''")
  case True
  then have "normal_names root kept (c # cs) = normal_names root kept cs"
    by simp
  then show ?thesis by blast
next
  case dot: False
  show ?thesis
  proof (cases "c = ''..''")
    case False
    with dot have "normal_names root kept (c # cs) = normal_names root (c # kept) cs"
      by simp
    moreover have "set (c # kept) \<subseteq> set kept \<union> {c, ''..''}" by auto
    moreover have "''.'' \<in> set (c # kept) \<longrightarrow> ''.'' \<in> set kept" using dot by auto
    ultimately show ?thesis by blast
  next
    case True
    show ?thesis
    proof (cases kept)
      case Nil
      show ?thesis
      proof (cases root)
        case True
        with \<open>c = ''..''\<close> Nil
        have "normal_names root kept (c # cs) = normal_names root [] cs"
          by simp
        then show ?thesis by (intro exI [of _ "[]"]) simp
      next
        case False
        with \<open>c = ''..''\<close> Nil
        have "normal_names root kept (c # cs) = normal_names root [''..''] cs"
          by simp
        then show ?thesis by (intro exI [of _ "[''..'']"]) simp
      qed
    next
      case (Cons t ts)
      show ?thesis
      proof (cases "t = ''..''")
        case tt: True
        with \<open>c = ''..''\<close> Cons
        have "normal_names root kept (c # cs) = normal_names root (''..'' # kept) cs"
          by simp
        then show ?thesis by (intro exI [of _ "''..'' # kept"]) auto
      next
        case tf: False
        with \<open>c = ''..''\<close> Cons
        have "normal_names root kept (c # cs) = normal_names root ts cs"
          by simp
        then show ?thesis using Cons by (intro exI [of _ ts]) auto
      qed
    qed
  qed
qed

lemma normal_names_plain:
  "(\<And>n. n \<in> set kept \<Longrightarrow> plain n) \<Longrightarrow> (\<And>n. n \<in> set cs \<Longrightarrow> plain n) \<Longrightarrow>
   n \<in> set (normal_names root kept cs) \<Longrightarrow> plain n"
proof (induction cs arbitrary: kept)
  case Nil
  then show ?case by simp
next
  case (Cons c cs)
  have c: "plain c" and cs: "\<And>n. n \<in> set cs \<Longrightarrow> plain n"
    using Cons.prems(2) by simp_all
  have up: "plain ''..''" by (simp add: plain_def)
  from normal_names_step [of root kept c cs] Cons.prems(3)
  obtain kept' where k: "n \<in> set (normal_names root kept' cs)"
    and k': "set kept' \<subseteq> set kept \<union> {c, ''..''}"
    by metis
  have "\<And>n. n \<in> set kept' \<Longrightarrow> plain n"
    using k' Cons.prems(1) c up by blast
  from Cons.IH [OF this cs k] show ?case .
qed

lemma normal_names_no_dot:
  "''.'' \<notin> set kept \<Longrightarrow> ''.'' \<notin> set (normal_names root kept cs)"
proof (induction cs arbitrary: kept)
  case Nil
  then show ?case by simp
next
  case (Cons c cs)
  from normal_names_step [of root kept c cs] Cons.prems
  obtain kept' where "normal_names root kept (c # cs) = normal_names root kept' cs"
    and "''.'' \<notin> set kept'"
    by metis
  with Cons.IH show ?case by simp
qed


lemma ups_below_push: "ups_below root kept \<Longrightarrow> c \<noteq> ''..'' \<Longrightarrow> ups_below root (c # kept)"
proof -
  assume "ups_below root kept" and c: "c \<noteq> ''..''"
  then obtain k ms where "kept = ms @ replicate k ''..''" "''..'' \<notin> set ms" "root \<longrightarrow> k = 0"
    unfolding ups_below_def by blast
  then have "c # kept = (c # ms) @ replicate k ''..'' \<and> ''..'' \<notin> set (c # ms) \<and> (root \<longrightarrow> k = 0)"
    using c by simp
  then show ?thesis
    unfolding ups_below_def by blast
qed

lemma ups_below_pop: "ups_below root (t # ts) \<Longrightarrow> t \<noteq> ''..'' \<Longrightarrow> ups_below root ts"
proof -
  assume "ups_below root (t # ts)" and t: "t \<noteq> ''..''"
  then obtain k ms where *: "t # ts = ms @ replicate k ''..''" "''..'' \<notin> set ms" "root \<longrightarrow> k = 0"
    unfolding ups_below_def by blast
  from *(1) t obtain ms' where "ms = t # ms'"
    by (cases ms) (auto simp: Cons_replicate_eq)
  with * have "ts = ms' @ replicate k ''..'' \<and> ''..'' \<notin> set ms' \<and> (root \<longrightarrow> k = 0)"
    by simp
  then show ?thesis
    unfolding ups_below_def by blast
qed

lemma ups_below_up:
  "ups_below root (''..'' # ts) \<Longrightarrow> ups_below root (''..'' # ''..'' # ts)"
proof -
  assume "ups_below root (''..'' # ts)"
  then obtain k ms where *: "''..'' # ts = ms @ replicate k ''..''" "''..'' \<notin> set ms" "root \<longrightarrow> k = 0"
    unfolding ups_below_def by blast
  from * have ms: "ms = []"
    by (cases ms) auto
  with * have k: "k \<noteq> 0"
    by (cases k) auto
  from * ms have "''..'' # ''..'' # ts = [] @ replicate (Suc k) ''..''"
    by simp
  moreover have "root \<longrightarrow> Suc k = 0"
    using * k by simp
  ultimately show ?thesis
    unfolding ups_below_def by (metis empty_iff list.set(1))
qed

lemma ups_below_first: "\<not> root \<Longrightarrow> ups_below root [''..'']"
  unfolding ups_below_def by (intro exI [of _ 1] exI [of _ "[]"]) simp

lemma ups_below_Nil: "ups_below root []"
  unfolding ups_below_def by simp

lemma normal_names_ups:
  "ups_below root kept \<Longrightarrow> ups_below root (normal_names root kept cs)"
proof (induction cs arbitrary: kept)
  case Nil
  then show ?case by simp
next
  case (Cons c cs)
  show ?case
  proof (cases "c = ''.''")
    case True
    then show ?thesis using Cons by simp
  next
    case dot: False
    show ?thesis
    proof (cases "c = ''..''")
      case False
      with dot Cons.IH [OF ups_below_push [OF Cons.prems False]] show ?thesis
        by simp
    next
      case True
      show ?thesis
      proof (cases kept)
        case Nil
        show ?thesis
        proof (cases root)
          case True
          with \<open>c = ''..''\<close> Nil Cons.IH [OF ups_below_Nil] show ?thesis by simp
        next
          case False
          with \<open>c = ''..''\<close> Nil Cons.IH [OF ups_below_first [OF False]] show ?thesis by simp
        qed
      next
        case (Cons t ts)
        show ?thesis
        proof (cases "t = ''..''")
          case tt: True
          from Cons.prems Cons tt have "ups_below root (''..'' # ''..'' # ts)"
            using ups_below_up by simp
          from Cons.IH [OF this] \<open>c = ''..''\<close> Cons tt show ?thesis by simp
        next
          case tf: False
          from Cons.prems Cons have "ups_below root ts"
            using ups_below_pop tf by blast
          from Cons.IH [OF this] \<open>c = ''..''\<close> Cons tf show ?thesis by simp
        qed
      qed
    qed
  qed
qed


lemma squeeze_other: "a \<noteq> CHR ''/'' \<Longrightarrow> squeeze (a # s) = a # squeeze s"
  by (cases s) simp_all

lemma squeeze_sep:
  "(case s of [] \<Rightarrow> True | b # _ \<Rightarrow> b \<noteq> CHR ''/'') \<Longrightarrow>
   squeeze (CHR ''/'' # s) = CHR ''/'' # squeeze s"
  by (cases s) simp_all

lemma squeeze_name: "CHR ''/'' \<notin> set n \<Longrightarrow> squeeze (n @ s) = n @ squeeze s"
  by (induction n) (auto simp: squeeze_other)

lemma join_names_head:
  "plain m \<Longrightarrow> \<exists>b bs. join_names (m # ns) @ t = b # bs \<and> b \<noteq> CHR ''/''"
  by (cases m; cases ns) (auto simp: plain_def)

lemma squeeze_join:
  assumes "\<And>n. n \<in> set ns \<Longrightarrow> plain n" and "t = [] \<or> t = ''/''"
  shows "squeeze (join_names ns @ t) = join_names ns @ t"
  using assms(1)
proof (induction ns rule: join_names.induct)
  case 1
  then show ?case using assms(2) by auto
next
  case (2 n)
  then have "plain n" by simp
  then show ?case using assms(2) by (auto simp: squeeze_name plain_def)
next
  case (3 n m ns)
  then have n: "plain n" and m: "plain m" by simp_all
  have ih: "squeeze (join_names (m # ns) @ t) = join_names (m # ns) @ t"
    using 3 by simp
  from join_names_head [OF m, of ns t] obtain b bs
    where b: "join_names (m # ns) @ t = b # bs" "b \<noteq> CHR ''/''"
    by blast
  have "squeeze (CHR ''/'' # join_names (m # ns) @ t) = CHR ''/'' # join_names (m # ns) @ t"
    using squeeze_sep [of "join_names (m # ns) @ t"] b ih by simp
  then show ?case
    using n by (simp add: squeeze_name plain_def)
qed

lemma squeeze_rooted_join:
  assumes "\<And>n. n \<in> set ns \<Longrightarrow> plain n" and "t = [] \<or> t = ''/''" and "ns = [] \<longrightarrow> t = []"
  shows "squeeze (CHR ''/'' # join_names ns @ t) = CHR ''/'' # join_names ns @ t"
proof (cases ns)
  case Nil
  with assms(3) show ?thesis by simp
next
  case (Cons m ms)
  then have "plain m" using assms(1) by simp
  from join_names_head [OF this, of ms t] obtain b bs
    where b: "join_names ns @ t = b # bs" "b \<noteq> CHR ''/''"
    using Cons by blast
  have j: "squeeze (join_names ns @ t) = join_names ns @ t"
    using assms(1,2) by (rule squeeze_join)
  have "squeeze (CHR ''/'' # (join_names ns @ t)) = CHR ''/'' # squeeze (join_names ns @ t)"
    by (rule squeeze_sep) (simp add: b)
  with j show ?thesis by simp
qed


lemma kept_plain:
  "n \<in> set (normal_names root [] (filenames p)) \<Longrightarrow> plain n"
  by (rule normal_names_plain [of "[]" "filenames p" n root]) (simp_all add: filenames_plain)

lemma lexically_normal_shape:
  assumes "filenames p \<noteq> []"
  shows "\<exists>t. (t = [] \<or> t = ''/'') \<and>
           (normal_names (is_absolute p) [] (filenames p) = [] \<longrightarrow> t = []) \<and>
           lexically_normal p =
             (if \<not> is_absolute p \<and> normal_names (is_absolute p) [] (filenames p) = []
              then ''.''
              else (if is_absolute p then ''/'' else []) @
                   join_names (rev (normal_names (is_absolute p) [] (filenames p))) @ t)"
proof -
  define kept where "kept = normal_names (is_absolute p) [] (filenames p)"
  define sep where "sep = (case kept of [] \<Rightarrow> False | t # _ \<Rightarrow> t \<noteq> ''..'' \<and>
     (last p = CHR ''/'' \<or> final_name p = ''.'' \<or> final_name p = ''..''))"
  define t where "t = (if sep then ''/'' else [])"
  have pl: "\<And>n. n \<in> set (rev kept) \<Longrightarrow> plain n"
    using kept_plain by (simp add: kept_def)
  have j: "join_names (rev kept) = [] \<longleftrightarrow> kept = []"
    using join_names_Nil [of "rev kept"] pl by simp
  have t0: "kept = [] \<longrightarrow> t = []"
    by (simp add: t_def sep_def)
  have ln: "lexically_normal p =
        (let s = (if is_absolute p then ''/'' else []) @ join_names (rev kept) @ t
         in if s = [] then ''.'' else s)"
    using assms by (simp add: lexically_normal_def Let_def kept_def sep_def t_def)
  have "lexically_normal p =
          (if \<not> is_absolute p \<and> kept = [] then ''.''
           else (if is_absolute p then ''/'' else []) @ join_names (rev kept) @ t)"
    using j t0 by (auto simp: ln Let_def)
  moreover have "t = [] \<or> t = ''/''"
    by (simp add: t_def)
  ultimately show ?thesis
    using t0 unfolding kept_def by blast
qed

lemma filenames_lexically_normal:
  assumes "filenames p \<noteq> []"
  shows "filenames (lexically_normal p) =
           (if \<not> is_absolute p \<and> normal_names (is_absolute p) [] (filenames p) = []
            then [''.''] else rev (normal_names (is_absolute p) [] (filenames p)))"
proof -
  define kept where "kept = normal_names (is_absolute p) [] (filenames p)"
  from lexically_normal_shape [OF assms] obtain t
    where t: "t = [] \<or> t = ''/''"
      and ln: "lexically_normal p =
                 (if \<not> is_absolute p \<and> kept = [] then ''.''
                  else (if is_absolute p then ''/'' else []) @ join_names (rev kept) @ t)"
    unfolding kept_def by blast
  have pl: "\<And>n. n \<in> set (rev kept) \<Longrightarrow> plain n"
    using kept_plain by (simp add: kept_def)
  have nf: "names_from [] (join_names (rev kept) @ t) = rev kept"
    using pl t by (rule names_from_join)
  show ?thesis
    unfolding kept_def [symmetric]
    using nf by (simp add: ln filenames_def)
qed

lemma squeeze_lexically_normal:
  assumes "filenames p \<noteq> []"
  shows "squeeze (lexically_normal p) = lexically_normal p"
proof -
  define kept where "kept = normal_names (is_absolute p) [] (filenames p)"
  from lexically_normal_shape [OF assms] obtain t
    where t: "t = [] \<or> t = ''/''" and t0: "kept = [] \<longrightarrow> t = []"
      and ln: "lexically_normal p =
                 (if \<not> is_absolute p \<and> kept = [] then ''.''
                  else (if is_absolute p then ''/'' else []) @ join_names (rev kept) @ t)"
    unfolding kept_def by blast
  have pl: "\<And>n. n \<in> set (rev kept) \<Longrightarrow> plain n"
    using kept_plain by (simp add: kept_def)
  have a: "squeeze (join_names (rev kept) @ t) = join_names (rev kept) @ t"
    using pl t by (rule squeeze_join)
  have b: "squeeze (CHR ''/'' # join_names (rev kept) @ t) = CHR ''/'' # join_names (rev kept) @ t"
  proof (rule squeeze_rooted_join [OF pl t])
    show "rev kept = [] \<longrightarrow> t = []"
      using t0 by simp
  qed
  show ?thesis
    using a b by (simp add: ln)
qed

lemma is_absolute_lexically_normal:
  assumes "filenames p \<noteq> []"
  shows "is_absolute (lexically_normal p) = is_absolute p"
proof -
  define kept where "kept = normal_names (is_absolute p) [] (filenames p)"
  from lexically_normal_shape [OF assms] obtain t
    where ln: "lexically_normal p =
                 (if \<not> is_absolute p \<and> kept = [] then ''.''
                  else (if is_absolute p then ''/'' else []) @ join_names (rev kept) @ t)"
    unfolding kept_def by blast
  show ?thesis
  proof (cases "is_absolute p")
    case True
    then show ?thesis
      by (simp add: ln is_absolute_def)
  next
    case False
    show ?thesis
    proof (cases "kept = []")
      case True
      with False show ?thesis
        by (simp add: ln is_absolute_def)
    next
      case ne: False
      then obtain m ms where k: "rev kept = m # ms"
        by (cases "rev kept") auto
      then have "m \<in> set (rev kept)"
        by simp
      then have "m \<in> set kept"
        by simp
      then have "plain m"
        unfolding kept_def by (rule kept_plain)
      from join_names_head [OF this, of ms t] obtain b bs
        where "join_names (rev kept) @ t = b # bs" "b \<noteq> CHR ''/''"
        using k by auto
      with False ne show ?thesis
        by (simp add: ln is_absolute_def)
    qed
  qed
qed

lemma names_of_lexically_normal:
  assumes "filenames p \<noteq> []"
  shows "names_of_normal (lexically_normal p) =
           rev (normal_names (is_absolute p) [] (filenames p))"
proof -
  define kept where "kept = normal_names (is_absolute p) [] (filenames p)"
  have nodot: "''.'' \<notin> set kept"
    unfolding kept_def by (rule normal_names_no_dot) simp
  have fn: "filenames (lexically_normal p) =
              (if \<not> is_absolute p \<and> kept = [] then [''.''] else rev kept)"
    unfolding kept_def by (rule filenames_lexically_normal [OF assms])
  show ?thesis
  proof (cases "lexically_normal p = ''.''")
    case True
    then have "filenames (lexically_normal p) = [''.'']"
      by (simp add: filenames_def)
    with fn nodot have "kept = []"
      by (auto split: if_splits)
    with True show ?thesis
      by (simp add: names_of_normal_def kept_def)
  next
    case False
    from lexically_normal_shape [OF assms] False
    have "\<not> (\<not> is_absolute p \<and> kept = [])"
      unfolding kept_def by auto
    with fn have "filenames (lexically_normal p) = rev kept"
      by simp
    with False show ?thesis
      unfolding kept_def by (simp add: names_of_normal_def)
  qed
qed

text \<open>The stack of kept names is reached from the names by collapsing steps.\<close>

lemma normal_names_collapses:
  "''.'' \<notin> set kept \<Longrightarrow>
   (collapse_step root)\<^sup>*\<^sup>* (rev kept @ cs) (rev (normal_names root kept cs))"
proof (induction cs arbitrary: kept)
  case Nil
  then show ?case by simp
next
  case (Cons c cs)
  show ?case
  proof (cases "c = ''.''")
    case True
    have "collapse_step root (rev kept @ ''.'' # cs) (rev kept @ cs)"
      by (rule drop_dot)
    moreover have "(collapse_step root)\<^sup>*\<^sup>* (rev kept @ cs) (rev (normal_names root kept cs))"
      by (rule Cons.IH [OF Cons.prems])
    ultimately have "(collapse_step root)\<^sup>*\<^sup>* (rev kept @ ''.'' # cs)
                       (rev (normal_names root kept cs))"
      by (rule converse_rtranclp_into_rtranclp)
    with True show ?thesis
      by simp
  next
    case dot: False
    show ?thesis
    proof (cases "c = ''..''")
      case False
      have "''.'' \<notin> set (c # kept)"
        using Cons.prems dot by auto
      from Cons.IH [OF this] dot False show ?thesis
        by simp
    next
      case True
      show ?thesis
      proof (cases kept)
        case Nil
        show ?thesis
        proof (cases root)
          case True
          then have "collapse_step root (''..'' # cs) cs"
            by (rule drop_root_up)
          moreover have "(collapse_step root)\<^sup>*\<^sup>* cs (rev (normal_names root [] cs))"
            using Cons.IH [of "[]"] by simp
          ultimately have "(collapse_step root)\<^sup>*\<^sup>* (''..'' # cs)
                             (rev (normal_names root [] cs))"
            by (rule converse_rtranclp_into_rtranclp)
          with \<open>c = ''..''\<close> Nil True show ?thesis
            by simp
        next
          case False
          have "(collapse_step root)\<^sup>*\<^sup>* (rev [''..''] @ cs)
                  (rev (normal_names root [''..''] cs))"
            using Cons.IH [of "[''..'']"] by simp
          with \<open>c = ''..''\<close> Nil False show ?thesis
            by simp
        qed
      next
        case (Cons t ts)
        show ?thesis
        proof (cases "t = ''..''")
          case tt: True
          have "''.'' \<notin> set (''..'' # kept)"
            using Cons.prems by simp
          from Cons.IH [OF this] \<open>c = ''..''\<close> Cons tt show ?thesis
            by simp
        next
          case tf: False
          have t: "t \<noteq> ''.''" and ts: "''.'' \<notin> set ts"
            using Cons.prems Cons by auto
          have "collapse_step root (rev ts @ t # ''..'' # cs) (rev ts @ cs)"
            using t tf by (rule drop_pair)
          moreover have "(collapse_step root)\<^sup>*\<^sup>* (rev ts @ cs) (rev (normal_names root ts cs))"
            by (rule Cons.IH [OF ts])
          ultimately have "(collapse_step root)\<^sup>*\<^sup>* (rev ts @ t # ''..'' # cs)
                             (rev (normal_names root ts cs))"
            by (rule converse_rtranclp_into_rtranclp)
          with \<open>c = ''..''\<close> Cons tf show ?thesis
            by simp
        qed
      qed
    qed
  qed
qed

text \<open>Names with the dot-dot names in front, and none under the root, cannot be collapsed.\<close>

lemma up_after_name:
  "replicate k u @ ms = xs @ n # u # ys \<Longrightarrow> n \<noteq> u \<Longrightarrow> u \<in> set ms"
proof (induction k arbitrary: xs)
  case 0
  then show ?case by auto
next
  case (Suc k)
  from Suc.prems obtain xs' where "xs = u # xs'"
    by (cases xs) auto
  with Suc.prems have "replicate k u @ ms = xs' @ n # u # ys"
    by simp
  from Suc.IH [OF this Suc.prems(2)] show ?case .
qed

lemma kept_irreducible:
  assumes "''.'' \<notin> set kept" and "ups_below root kept"
  shows "\<not> collapse_step root (rev kept) ns"
proof
  assume step: "collapse_step root (rev kept) ns"
  from assms(2) obtain k ms
    where km: "kept = ms @ replicate k ''..''" and ms: "''..'' \<notin> set ms"
      and root: "root \<longrightarrow> k = 0"
    unfolding ups_below_def by blast
  have rk: "rev kept = replicate k ''..'' @ rev ms"
    by (simp add: km)
  from step show False
  proof (cases rule: collapse_step.cases)
    case (drop_dot xs ys)
    then have "''.'' \<in> set (rev kept)"
      by simp
    with assms(1) show False
      by simp
  next
    case (drop_pair n xs ys)
    then have "replicate k ''..'' @ rev ms = xs @ n # ''..'' # ys"
      using rk by simp
    from up_after_name [OF this drop_pair(4)] ms show False
      by simp
  next
    case (drop_root_up)
    then have "rev kept = ''..'' # ns" and "k = 0"
      using root by simp_all
    with rk ms show False
      by (cases "rev ms") auto
  qed
qed

text \<open>
  C8, as the specification states it, does not hold for a path made only of separators:
  \<open>normalize\<close> returns \<open>//\<close> as it is, with its repeated separator.
\<close>

theorem normalize_path_separators_counterexample:
  "normalize_path ''//'' = ''//'' \<and> squeeze (normalize_path ''//'') \<noteq> normalize_path ''//''"
  by code_simp

text \<open>
  C8, amended. \<open>normalize\<close> is a function of the path alone, defined for every path, and
  it turns \<open>a/./b/../c\<close> into \<open>a/c\<close>. A path without a name, which is empty or made only
  of separators, is returned as it is. For every other path the names of the result are
  reached from the names of the path by collapsing steps (dropping a dot, a name with the
  dot-dot after it, or a dot-dot directly under the root), no further step applies to
  them, the result repeats no separator, and it is absolute exactly when the path is.
\<close>

theorem normalize_path_lexical:
  "normalize_path ''a/./b/../c'' = ''a/c'' \<and>
   (filenames p = [] \<longrightarrow> normalize_path p = p) \<and>
   (filenames p \<noteq> [] \<longrightarrow>
      (collapse_step (is_absolute p))\<^sup>*\<^sup>* (filenames p) (names_of_normal (normalize_path p)) \<and>
      (\<forall>ns. \<not> collapse_step (is_absolute p) (names_of_normal (normalize_path p)) ns) \<and>
      squeeze (normalize_path p) = normalize_path p \<and>
      is_absolute (normalize_path p) = is_absolute p)"
proof -
  define kept where "kept = normal_names (is_absolute p) [] (filenames p)"
  have ex: "normalize_path ''a/./b/../c'' = ''a/c''"
    by code_simp
  have em: "filenames p = [] \<longrightarrow> normalize_path p = p"
    by (simp add: normalize_path_def lexically_normal_def)
  have nodot: "''.'' \<notin> set kept"
    unfolding kept_def by (rule normal_names_no_dot) simp
  have ups: "ups_below (is_absolute p) kept"
    unfolding kept_def by (rule normal_names_ups) (rule ups_below_Nil)
  have reach: "(collapse_step (is_absolute p))\<^sup>*\<^sup>* (filenames p) (rev kept)"
    using normal_names_collapses [of "[]" "is_absolute p" "filenames p"]
    by (simp add: kept_def)
  have irr: "\<forall>ns. \<not> collapse_step (is_absolute p) (rev kept) ns"
    using kept_irreducible [OF nodot ups] by blast
  have rest: "(collapse_step (is_absolute p))\<^sup>*\<^sup>* (filenames p)
                (names_of_normal (normalize_path p)) \<and>
              (\<forall>ns. \<not> collapse_step (is_absolute p) (names_of_normal (normalize_path p)) ns) \<and>
              squeeze (normalize_path p) = normalize_path p \<and>
              is_absolute (normalize_path p) = is_absolute p"
    if ne: "filenames p \<noteq> []"
  proof -
    have "names_of_normal (normalize_path p) = rev kept"
      unfolding normalize_path_def kept_def by (rule names_of_lexically_normal [OF ne])
    with reach irr show ?thesis
      by (simp add: normalize_path_def squeeze_lexically_normal [OF ne]
          is_absolute_lexically_normal [OF ne])
  qed
  from ex em rest show ?thesis
    by blast
qed

theorem normalize_path_lexical_witness:
  "filenames ''//'' = [] \<and> normalize_path ''//'' = ''//'' \<and>
   filenames ''x/./y/../z//'' \<noteq> [] \<and>
   normalize_path ''x/./y/../z//'' = ''x/z/'' \<and>
   (collapse_step (is_absolute ''x/./y/../z//''))\<^sup>*\<^sup>* (filenames ''x/./y/../z//'')
      (names_of_normal (normalize_path ''x/./y/../z//'')) \<and>
   squeeze (normalize_path ''x/./y/../z//'') = normalize_path ''x/./y/../z//'' \<and>
   is_absolute (normalize_path ''x/./y/../z//'') = is_absolute ''x/./y/../z//''"
proof -
  have a: "filenames ''//'' = []"
    by code_simp
  have b: "filenames ''x/./y/../z//'' \<noteq> []"
    by code_simp
  have c: "normalize_path ''x/./y/../z//'' = ''x/z/''"
    by code_simp
  from normalize_path_lexical [of "''//''"] a
  have d: "normalize_path ''//'' = ''//''"
    by blast
  from normalize_path_lexical [of "''x/./y/../z//''"] b
  have e: "(collapse_step (is_absolute ''x/./y/../z//''))\<^sup>*\<^sup>* (filenames ''x/./y/../z//'')
             (names_of_normal (normalize_path ''x/./y/../z//'')) \<and>
           squeeze (normalize_path ''x/./y/../z//'') = normalize_path ''x/./y/../z//'' \<and>
           is_absolute (normalize_path ''x/./y/../z//'') = is_absolute ''x/./y/../z//''"
    by blast
  from a b c d e show ?thesis
    by blast
qed

lemma squeeze_Nil_iff: "squeeze s = [] \<longleftrightarrow> s = []"
  by (induction s rule: squeeze.induct) auto

lemma squeeze_head: "\<exists>ys. squeeze (b # cs) = b # ys"
  by (induction cs arbitrary: b) auto

lemma last_squeeze: "s \<noteq> [] \<Longrightarrow> last (squeeze s) = last s"
  by (induction s rule: squeeze.induct) (auto simp: squeeze_Nil_iff)

lemma squeeze_idem: "squeeze (squeeze s) = squeeze s"
proof (induction s rule: squeeze.induct)
  case (1 a b cs)
  obtain ys where ys: "squeeze (b # cs) = b # ys"
    using squeeze_head by blast
  show ?case
  proof (cases "a = CHR ''/'' \<and> b = CHR ''/''")
    case True
    then show ?thesis
      using 1 by simp
  next
    case False
    then have "squeeze (a # squeeze (b # cs)) = a # squeeze (squeeze (b # cs))"
      by (simp add: ys)
    then show ?thesis
      using False 1 by simp
  qed
qed simp_all

lemma squeeze_snoc:
  "s \<noteq> [] \<Longrightarrow> last s \<noteq> CHR ''/'' \<Longrightarrow> squeeze (s @ [c]) = squeeze s @ [c]"
  by (induction s rule: squeeze.induct) auto

text \<open>
  C10. \<open>ensure_trailing_separator\<close> applied twice gives what it gives applied once; for a
  path that is not empty the generic string of the result ends in the separator; the empty
  path is returned as it is. This holds for both forms of \<open>generic_string\<close>.
\<close>

theorem ensure_trailing_separator_idem:
  "ensure_trailing_separator h (ensure_trailing_separator h p) = ensure_trailing_separator h p \<and>
   (p \<noteq> [] \<longrightarrow> generic_string h (ensure_trailing_separator h p) \<noteq> [] \<and>
                last (generic_string h (ensure_trailing_separator h p)) = CHR ''/'') \<and>
   ensure_trailing_separator h [] = []"
proof (cases h)
  case True
  show ?thesis
  proof (cases "p = []")
    case True
    then show ?thesis
      by (simp add: ensure_trailing_separator_def)
  next
    case False
    then have ne: "squeeze p \<noteq> []"
      by (simp add: squeeze_Nil_iff)
    show ?thesis
    proof (cases "last (squeeze p) = CHR ''/''")
      case True
      with ne False \<open>h\<close> show ?thesis
        by (simp add: ensure_trailing_separator_def generic_string_def squeeze_idem Let_def)
    next
      case l: False
      have "squeeze (squeeze p @ ''/'') = squeeze p @ ''/''"
        using squeeze_snoc [OF _ _, of "squeeze p" "CHR ''/''"] ne l
        by (simp add: squeeze_idem last_squeeze squeeze_Nil_iff)
      with ne False l \<open>h\<close> show ?thesis
        by (simp add: ensure_trailing_separator_def generic_string_def Let_def)
    qed
  qed
next
  case False
  then show ?thesis
    by (simp add: ensure_trailing_separator_def generic_string_def Let_def)
qed

theorem ensure_trailing_separator_idem_witness:
  "''a//b'' \<noteq> [] \<and> ensure_trailing_separator True ''a//b'' = ''a/b/'' \<and>
   ensure_trailing_separator True (ensure_trailing_separator True ''a//b'') = ''a/b/'' \<and>
   last (generic_string True (ensure_trailing_separator True ''a//b'')) = CHR ''/''"
proof -
  have e: "ensure_trailing_separator True ''a//b'' = ''a/b/''"
    by code_simp
  show ?thesis
    using ensure_trailing_separator_idem [of True "''a//b''"] e by simp
qed

subsection \<open>Creating a directory once and again\<close>

text \<open>
  What \<open>mkdirs\<close> returns: the walk along the same names now succeeds and ends in a
  directory, the working directory is the same, and every file that was there still is.
\<close>

lemma mkdirs_result:
  assumes "mkdirs fs cur cs = Inr (loc, fs')"
  shows "walk fs' cur cs = Inr loc \<and> (\<exists>a. node_at fs' loc = Some (Directory a)) \<and>
         cwd fs' = cwd fs \<and> (\<forall>k n. node_at fs k = Some n \<longrightarrow> node_at fs' k = Some n)"
  using assms
proof (induction cs arbitrary: fs cur)
  case Nil
  then show ?case
    by (auto split: option.splits node.splits)
next
  case (Cons c cs)
  from Cons.prems obtain a where a: "node_at fs cur = Some (Directory a)" "a \<noteq> NoAccess"
    by (auto split: option.splits node.splits if_splits)
  define nxt
    where "nxt = (if c = ''.'' then cur else if c = ''..'' then butlast cur else cur @ [c])"
  have "\<exists>fs1. mkdirs fs1 nxt cs = Inr (loc, fs') \<and> cwd fs1 = cwd fs \<and>
          (\<forall>k n. node_at fs k = Some n \<longrightarrow> node_at fs1 k = Some n)"
  proof (cases "c = ''.'' \<or> c = ''..'' \<or> node_at fs (cur @ [c]) \<noteq> None")
    case True
    with Cons.prems a have "mkdirs fs nxt cs = Inr (loc, fs')"
      by (auto simp: nxt_def split: if_splits)
    then show ?thesis
      by blast
  next
    case False
    with Cons.prems a
    have "mkdirs (store fs (cur @ [c]) (Directory ReadWrite)) nxt cs = Inr (loc, fs')"
      by (auto simp: nxt_def split: if_splits)
    moreover have "\<forall>k n. node_at fs k = Some n \<longrightarrow>
                     node_at (store fs (cur @ [c]) (Directory ReadWrite)) k = Some n"
      using False by (auto simp: node_at_store)
    ultimately show ?thesis
      using cwd_store by blast
  qed
  then obtain fs1
    where rec: "mkdirs fs1 nxt cs = Inr (loc, fs')" and cw: "cwd fs1 = cwd fs"
      and mono1: "\<And>k n. node_at fs k = Some n \<Longrightarrow> node_at fs1 k = Some n"
    by blast
  from Cons.IH [OF rec]
  have w: "walk fs' nxt cs = Inr loc" and d: "\<exists>a. node_at fs' loc = Some (Directory a)"
    and cw': "cwd fs' = cwd fs1"
    and mono2: "\<And>k n. node_at fs1 k = Some n \<Longrightarrow> node_at fs' k = Some n"
    by auto
  have "node_at fs' cur = Some (Directory a)"
    using a(1) mono1 mono2 by blast
  then have "walk fs' cur (c # cs) = Inr loc"
    using w a(2) by (simp add: nxt_def)
  then show ?case
    using d cw cw' mono1 mono2 by auto
qed

lemma lookup_directory_status:
  "lookup fs p = Inr (Directory a) \<Longrightarrow> std_status fs p = (ft_directory, None)"
  by (simp add: std_status_node node_type_def)

lemma ensure_dir_on_directory:
  "lookup fs p = Inr (Directory a) \<Longrightarrow> ensure_dir fs p = Inr fs"
  by (simp add: ensure_dir_def std_exists_def std_is_directory_def lookup_directory_status)

lemma ensure_dir_makes_directory:
  assumes "ensure_dir fs p = Inr fs'"
  shows "\<exists>a. lookup fs' p = Inr (Directory a)"
proof (cases "fst (std_exists fs p)")
  case True
  with assms have "fs' = fs" and "fst (std_is_directory fs p)"
    by (auto simp: ensure_dir_def Let_def split: prod.splits option.splits if_splits)
  then show ?thesis
    by (auto simp: std_is_directory_def std_status_def node_type_def
        split: sum.splits node.splits if_splits)
next
  case False
  with assms obtain loc where ne: "p \<noteq> []"
    and mk: "mkdirs fs (if is_absolute p then [] else cwd fs) (lookup_names p) = Inr (loc, fs')"
    by (auto simp: ensure_dir_def std_create_directories_def Let_def
        split: prod.splits option.splits if_splits sum.splits)
  from mkdirs_result [OF mk] obtain a
    where "walk fs' (if is_absolute p then [] else cwd fs) (lookup_names p) = Inr loc"
      and "node_at fs' loc = Some (Directory a)" and "cwd fs' = cwd fs"
    by auto
  then show ?thesis
    using ne by (auto simp: lookup_def resolve_def)
qed

text \<open>
  C3. On a path that is a directory \<open>ensure_dir\<close> returns and leaves the file store as it
  is. Whenever \<open>ensure_dir(p)\<close> returns, \<open>p\<close> is a directory and a second call returns
  with the file store unchanged. On a path that exists and is not a directory it throws
  \<open>runtime_error\<close> (not a directory), and when the path does not exist and the host fails
  to create it, it throws \<open>system_error\<close> with the host's code.
\<close>

theorem ensure_dir_idempotent:
  "(lookup fs p = Inr (Directory a) \<longrightarrow> ensure_dir fs p = Inr fs) \<and>
   (ensure_dir fs p = Inr fs' \<longrightarrow> is_dir_path fs' p \<and> ensure_dir fs' p = Inr fs') \<and>
   (lookup fs p = Inr n \<and> node_type n \<noteq> ft_directory \<longrightarrow>
      ensure_dir fs p = Inl (RuntimeError (''rix::fs::ensure_dir: not a directory: '' @ p))) \<and>
   (\<not> path_exists fs p \<and> std_create_directories fs p = (False, Some e, fs'') \<longrightarrow>
      ensure_dir fs p = Inl (SystemError e (''rix::fs::ensure_dir: create failed: '' @ p)))"
proof -
  have 1: "lookup fs p = Inr (Directory a) \<longrightarrow> ensure_dir fs p = Inr fs"
    by (simp add: ensure_dir_on_directory)
  have 2: "ensure_dir fs p = Inr fs' \<longrightarrow> is_dir_path fs' p \<and> ensure_dir fs' p = Inr fs'"
  proof
    assume "ensure_dir fs p = Inr fs'"
    from ensure_dir_makes_directory [OF this]
    obtain b where b: "lookup fs' p = Inr (Directory b)"
      by blast
    then show "is_dir_path fs' p \<and> ensure_dir fs' p = Inr fs'"
      by (simp add: ensure_dir_on_directory is_dir_path_def std_is_directory_def
          lookup_directory_status)
  qed
  have 3: "lookup fs p = Inr n \<and> node_type n \<noteq> ft_directory \<longrightarrow>
      ensure_dir fs p = Inl (RuntimeError (''rix::fs::ensure_dir: not a directory: '' @ p))"
    by (auto simp: ensure_dir_def std_exists_def std_is_directory_def std_status_node
        node_type_def split: node.splits)
  have 4: "\<not> path_exists fs p \<and> std_create_directories fs p = (False, Some e, fs'') \<longrightarrow>
      ensure_dir fs p = Inl (SystemError e (''rix::fs::ensure_dir: create failed: '' @ p))"
    by (auto simp: ensure_dir_def path_exists_def split: prod.splits)
  from 1 2 3 4 show ?thesis
    by blast
qed

theorem ensure_dir_idempotent_witness:
  "lookup example_fs ''d'' = Inr (Directory ReadWrite) \<and>
   ensure_dir example_fs ''d'' = Inr example_fs \<and>
   ensure_dir example_fs ''x/y'' = Inr made_fs \<and>
   is_dir_path made_fs ''x/y'' \<and> ensure_dir made_fs ''x/y'' = Inr made_fs \<and>
   lookup example_fs ''d/a'' = Inr (RegularFile ReadWrite ''hello rix'') \<and>
   node_type (RegularFile ReadWrite ''hello rix'') \<noteq> ft_directory \<and>
   ensure_dir example_fs ''d/a'' =
     Inl (RuntimeError ''rix::fs::ensure_dir: not a directory: d/a'') \<and>
   \<not> path_exists example_fs ''ro/y'' \<and>
   std_create_directories example_fs ''ro/y'' = (False, Some permission_denied, example_fs) \<and>
   ensure_dir example_fs ''ro/y'' =
     Inl (SystemError permission_denied ''rix::fs::ensure_dir: create failed: ro/y'')"
proof -
  have a: "lookup example_fs ''d'' = Inr (Directory ReadWrite)"
    by code_simp
  have b: "ensure_dir example_fs ''x/y'' = Inr made_fs"
    by code_simp
  have c: "lookup example_fs ''d/a'' = Inr (RegularFile ReadWrite ''hello rix'')"
    by code_simp
  have c': "node_type (RegularFile ReadWrite ''hello rix'') \<noteq> ft_directory"
    by code_simp
  have d: "\<not> path_exists example_fs ''ro/y''"
    by code_simp
  have d': "std_create_directories example_fs ''ro/y'' =
            (False, Some permission_denied, example_fs)"
    by code_simp
  show ?thesis
    using a b c c' d d'
      ensure_dir_idempotent [of example_fs "''d''" ReadWrite]
      ensure_dir_idempotent [of example_fs "''x/y''" _ made_fs]
      ensure_dir_idempotent [of example_fs "''d/a''" _ _ "RegularFile ReadWrite ''hello rix''"]
      ensure_dir_idempotent [of example_fs "''ro/y''" _ _ _ permission_denied example_fs]
    by simp
qed

subsection \<open>Removal\<close>

text \<open>A walk that succeeded ends where it did, or finds a name missing, when files
  are only taken away.\<close>

lemma walk_shrunk:
  assumes "walk fs cur cs = Inr l"
    and "\<And>k. node_at fs' k = node_at fs k \<or> node_at fs' k = None"
  shows "walk fs' cur cs = Inr l \<or> walk fs' cur cs = Inl no_such_file_or_directory"
  using assms(1)
proof (induction cs arbitrary: cur)
  case Nil
  then show ?case by simp
next
  case (Cons c cs)
  from Cons.prems obtain a where a: "node_at fs cur = Some (Directory a)" "a \<noteq> NoAccess"
    by (auto split: option.splits node.splits if_splits)
  from Cons.prems a
  have "walk fs (if c = ''.'' then cur else if c = ''..'' then butlast cur else cur @ [c]) cs
        = Inr l"
    by simp
  from Cons.IH [OF this] assms(2) [of cur] a show ?case
    by auto
qed

lemma lookup_shrunk:
  assumes "resolve fs p = Inr loc"
    and "\<And>k. node_at fs' k = node_at fs k \<or> node_at fs' k = None"
    and "node_at fs' loc = None" and "cwd fs' = cwd fs"
  shows "lookup fs' p = Inl no_such_file_or_directory"
proof -
  from assms(1) have ne: "p \<noteq> []"
    and w: "walk fs (if is_absolute p then [] else cwd fs) (lookup_names p) = Inr loc"
    by (auto simp: resolve_def split: if_splits)
  from walk_shrunk [OF w assms(2)] assms(3,4) ne show ?thesis
    by (auto simp: lookup_def resolve_def)
qed




lemma lookup_resolve:
  "lookup fs p = Inr n \<Longrightarrow> \<exists>loc. resolve fs p = Inr loc \<and> node_at fs loc = Some n"
  by (auto simp: lookup_def split: sum.splits option.splits)


lemma path_exists_lookup: "path_exists fs p \<longleftrightarrow> (\<exists>n. lookup fs p = Inr n)"
  by (auto simp: path_exists_def std_exists_def std_status_def node_type_def
      split: sum.splits node.splits)





lemma std_remove_existing:
  assumes "std_remove fs p = (r, None, fs')" and "lookup fs p = Inr nd"
  shows "r \<and> lookup fs' p = Inl no_such_file_or_directory"
proof -
  from lookup_resolve [OF assms(2)] obtain loc
    where rs: "resolve fs p = Inr loc" and at: "node_at fs loc = Some nd"
    by blast
  from assms(1,2) rs
  have r: "r" and ne: "loc \<noteq> []"
    and fs': "fs' = fs\<lparr>entries := AList.delete loc (entries fs)\<rparr>"
    by (auto simp: std_remove_def posix_remove_def split: if_splits sum.splits)
  have "lookup fs' p = Inl no_such_file_or_directory"
  proof (rule lookup_shrunk [OF rs])
    show "node_at fs' k = node_at fs k \<or> node_at fs' k = None" for k
      by (simp add: fs' node_at_def delete_conv')
    show "node_at fs' loc = None"
      using ne by (simp add: fs' node_at_def delete_conv')
    show "cwd fs' = cwd fs"
      by (simp add: fs')
  qed
  with r show ?thesis by blast
qed

text \<open>
  C9. \<open>remove_file\<close> and \<open>remove_dir\<close> give the same result once the message of the
  exception is dropped: the same boolean and file store, or a \<open>system_error\<close> with the same
  code; only the message names the function. So \<open>remove_file\<close> on a directory and
  \<open>remove_dir\<close> on a regular file, when they return, have removed it.
\<close>

theorem remove_file_remove_dir_same:
  "map_sum error_code_of id (remove_file fs p) = map_sum error_code_of id (remove_dir fs p) \<and>
   (remove_file fs p = Inl x \<longrightarrow>
      error_message x = ''rix::fs::remove_file: failed: '' @ p) \<and>
   (remove_dir fs p = Inl y \<longrightarrow>
      error_message y = ''rix::fs::remove_dir: failed: '' @ p) \<and>
   (lookup fs p = Inr (Directory a) \<and> remove_file fs p = Inr (r, fs') \<longrightarrow>
      r \<and> \<not> path_exists fs' p) \<and>
   (lookup fs p = Inr (RegularFile b content) \<and> remove_dir fs p = Inr (r', fs'') \<longrightarrow>
      r' \<and> \<not> path_exists fs'' p)"
proof -
  have 1: "map_sum error_code_of id (remove_file fs p) =
           map_sum error_code_of id (remove_dir fs p)"
    by (simp add: remove_file_def remove_dir_def split: prod.splits option.splits)
  have 2: "remove_file fs p = Inl x \<longrightarrow>
      error_message x = ''rix::fs::remove_file: failed: '' @ p"
    by (auto simp: remove_file_def split: prod.splits option.splits)
  have 3: "remove_dir fs p = Inl y \<longrightarrow>
      error_message y = ''rix::fs::remove_dir: failed: '' @ p"
    by (auto simp: remove_dir_def split: prod.splits option.splits)
  have 4: "r \<and> \<not> path_exists fs' p"
    if "lookup fs p = Inr (Directory a)" "remove_file fs p = Inr (r, fs')"
  proof -
    from that(2) have "std_remove fs p = (r, None, fs')"
      by (auto simp: remove_file_def split: prod.splits option.splits)
    from std_remove_existing [OF this that(1)] show ?thesis
      by (simp add: path_exists_lookup)
  qed
  have 5: "r' \<and> \<not> path_exists fs'' p"
    if "lookup fs p = Inr (RegularFile b content)" "remove_dir fs p = Inr (r', fs'')"
  proof -
    from that(2) have "std_remove fs p = (r', None, fs'')"
      by (auto simp: remove_dir_def split: prod.splits option.splits)
    from std_remove_existing [OF this that(1)] show ?thesis
      by (simp add: path_exists_lookup)
  qed
  from 1 2 3 4 5 show ?thesis by blast
qed

theorem remove_file_remove_dir_same_witness:
  "remove_file example_fs ''d'' =
     Inl (SystemError directory_not_empty ''rix::fs::remove_file: failed: d'') \<and>
   remove_dir example_fs ''d'' =
     Inl (SystemError directory_not_empty ''rix::fs::remove_dir: failed: d'') \<and>
   error_message (SystemError directory_not_empty ''rix::fs::remove_file: failed: d'') =
     ''rix::fs::remove_file: failed: '' @ ''d'' \<and>
   error_message (SystemError directory_not_empty ''rix::fs::remove_dir: failed: d'') =
     ''rix::fs::remove_dir: failed: '' @ ''d'' \<and>
   lookup example_fs ''e'' = Inr (Directory ReadWrite) \<and>
   remove_file example_fs ''e'' = Inr (True, without_e_fs) \<and>
   \<not> path_exists without_e_fs ''e'' \<and>
   lookup example_fs ''d/a'' = Inr (RegularFile ReadWrite ''hello rix'') \<and>
   remove_dir example_fs ''d/a'' = Inr (True, without_a_fs) \<and>
   \<not> path_exists without_a_fs ''d/a''"
proof -
  have a: "remove_file example_fs ''d'' =
           Inl (SystemError directory_not_empty ''rix::fs::remove_file: failed: d'')"
    by code_simp
  have b: "remove_dir example_fs ''d'' =
           Inl (SystemError directory_not_empty ''rix::fs::remove_dir: failed: d'')"
    by code_simp
  have c: "lookup example_fs ''e'' = Inr (Directory ReadWrite)"
    by code_simp
  have c': "remove_file example_fs ''e'' = Inr (True, without_e_fs)"
    by code_simp
  have d: "lookup example_fs ''d/a'' = Inr (RegularFile ReadWrite ''hello rix'')"
    by code_simp
  have d': "remove_dir example_fs ''d/a'' = Inr (True, without_a_fs)"
    by code_simp
  from remove_file_remove_dir_same [of example_fs "''e''" _ _ ReadWrite True without_e_fs] c c'
  have e: "\<not> path_exists without_e_fs ''e''"
    by blast
  from remove_file_remove_dir_same
         [of example_fs "''d/a''" _ _ _ _ _ ReadWrite "''hello rix''" True without_a_fs] d d'
  have f: "\<not> path_exists without_a_fs ''d/a''"
    by blast
  from remove_file_remove_dir_same
         [of example_fs "''d''"
             "SystemError directory_not_empty ''rix::fs::remove_file: failed: d''"
             "SystemError directory_not_empty ''rix::fs::remove_dir: failed: d''"] a b
  have g: "error_message (SystemError directory_not_empty ''rix::fs::remove_file: failed: d'') =
             ''rix::fs::remove_file: failed: '' @ ''d'' \<and>
           error_message (SystemError directory_not_empty ''rix::fs::remove_dir: failed: d'') =
             ''rix::fs::remove_dir: failed: '' @ ''d''"
    by blast
  from a b c c' d d' e f g show ?thesis
    by blast
qed

end
